theory Spec2Isabelle
  imports Main "HOL-Library.Word" "HOL-Library.AList"
begin

section \<open>The device store of onos-topo over a versioned map\<close>

text \<open>
  The development embeds \<^verbatim>\<open>pkg/store/device.go\<close>. The file holds two generations of
  the same store: \<^verbatim>\<open>atomixStore\<close> (package \<^verbatim>\<open>device\<close>, records carrying \<^verbatim>\<open>ID\<close> and
  \<^verbatim>\<open>Revision\<close>) and the older \<^verbatim>\<open>atomixDeviceStore\<close> (package \<^verbatim>\<open>store\<close>, records
  carrying \<^verbatim>\<open>Id\<close> and an \<^verbatim>\<open>ObjectMetadata\<close> pointer). Both are modelled; the older one
  has the prefix \<open>legacy_\<close>.

  Go's \<^verbatim>\<open>int64\<close> and \<^verbatim>\<open>uint64\<close> are both \<open>64 word\<close>. The conversions
  \<^verbatim>\<open>int64(device.Revision)\<close> and \<^verbatim>\<open>deviceapi.Revision(entry.Version)\<close> keep the 64 bits,
  so they are the identity on the word and are not written. A \<^verbatim>\<open>uint64\<close> is compared
  with the (unsigned) order of words, in which \<open>0 < w\<close> is \<open>w \<noteq> 0\<close>.
\<close>

type_synonym bytes = "8 word list"
type_synonym int64 = "64 word"
type_synonym uint64 = "64 word"

subsection \<open>Errors\<close>

text \<open>
  Every error value the store can hand to its caller. \<open>Conflict\<close>, \<open>NotFound\<close>,
  \<open>Timeout\<close> and \<open>Unavailable\<close> come from the map; \<open>MarshalError\<close> and
  \<open>UnmarshalError\<close> from \<^verbatim>\<open>proto.Marshal\<close> and \<^verbatim>\<open>proto.Unmarshal\<close>;
  \<open>NilPointer\<close> is the panic of dereferencing a nil or dangling pointer.
\<close>

datatype error =
  NotFound | Conflict | Timeout | Unavailable | MarshalError | UnmarshalError | NilPointer

subsection \<open>Data model\<close>

record Credentials =
  User :: string
  Password :: string

record TlsConfig =
  Cert :: string
  Key_tls :: string
  CaCert :: string
  Plain :: bool
  Insecure :: bool

record ProtocolState =
  Protocol :: nat
  ConnectivityState :: nat
  ChannelState :: nat
  ServiceState :: nat

text \<open>
  \<^verbatim>\<open>deviceapi.Device\<close>, with the fields the command line and the test set. The
  fields whose Go names are taken by the map entry, the event or an error have the
  suffix \<open>_dev\<close>. \<open>Timeout_dev\<close> is a pointer to a duration in nanoseconds.
\<close>

record Device =
  ID :: string
  Revision :: uint64
  Type_dev :: string
  Role :: string
  Target :: string
  Address :: string
  Version_dev :: string
  Timeout_dev :: "nat option"
  Credentials :: Credentials
  TLS :: TlsConfig
  Attributes :: "(string \<times> string) list"
  Protocols :: "ProtocolState list"

text \<open>
  The protobuf encoding is a parameter: \<open>Marshal\<close> and \<open>Unmarshal\<close> stand for
  \<^verbatim>\<open>proto.Marshal\<close> and \<^verbatim>\<open>proto.Unmarshal\<close>, \<open>None\<close> for a returned error.
\<close>

record 'd codec =
  Marshal :: "'d \<Rightarrow> bytes option"
  Unmarshal :: "bytes \<Rightarrow> 'd option"

subsection \<open>The versioned map\<close>

text \<open>\<^verbatim>\<open>_map.Entry\<close> (and the older \<^verbatim>\<open>map_.KeyValue\<close>, which has the same three fields).\<close>

record Entry =
  Key :: string
  Value :: bytes
  Version :: int64

text \<open>
  \<^verbatim>\<open>EventType\<close> is a Go string type, in the map client and in the store alike, so
  \<^verbatim>\<open>EventType(event.Type)\<close> keeps the string.
\<close>

type_synonym EventType = string

definition EventNone :: EventType where "EventNone = ''''"
definition EventRemoved :: EventType where "EventRemoved = ''removed''"

text \<open>\<^verbatim>\<open>_map.Event\<close>: what the map sends on a watch channel.\<close>

record MapEvent =
  MapType :: EventType
  MapEntry :: Entry

text \<open>
  \<^verbatim>\<open>context.Context\<close> as the store builds it: \<^verbatim>\<open>context.Background()\<close>, or
  \<^verbatim>\<open>context.WithTimeout(context.Background(), d)\<close> with \<open>d\<close> in nanoseconds.
\<close>

datatype ctx = Background | WithTimeout nat

definition Second :: nat where
  "Second = 1000000000"

text \<open>
  Modelled from the spec: the replicated map \<^verbatim>\<open>_map.Map\<close> of the Atomix client, which
  is not part of the repository. Section 6 of the specification gives its contract:
  \<^verbatim>\<open>get(key) -> (value, version) | absent\<close>,
  \<^verbatim>\<open>put(key, value[, ifVersion]) -> (value, newVersion) | versionMismatch\<close>,
  \<^verbatim>\<open>remove(key[, ifVersion]) -> ok | versionMismatch | absent\<close>,
  \<^verbatim>\<open>entries() -> stream of (key, value, version)\<close> and
  \<^verbatim>\<open>watch([replay]) -> stream of (eventType, key, value, version)\<close>.
  The state is the list of live entries (one per key, in enumeration order), the index
  from which versions are drawn, whether the map stays reachable for the whole of a
  call, and the time in nanoseconds it takes to answer a call. A version mismatch is
  the error \<open>Conflict\<close>, an absent key on remove the error \<open>NotFound\<close>; absence on
  get is a nil entry with a nil error, which is what \<^verbatim>\<open>atomixStore.Load\<close> tests for.
  Section 7 of the specification adds the failure of a stream that is open: it
  terminates the stream. On a map that does not stay reachable, \<open>lost_after = Some n\<close>
  says that a stream still opens and that the map is lost when \<open>n\<close> items have been
  sent, upon which the client closes the channel; \<open>lost_after = None\<close> says that no
  call is answered at all.
\<close>

record substrate =
  entries :: "(string \<times> bytes \<times> int64) list"
  index :: int64
  up :: bool
  latency :: nat
  lost_after :: "nat option"

text \<open>
  Modelled from the spec: how a call ends without an answer. An unreachable map fails
  every call; a call whose context has a deadline shorter than the map's latency fails
  with \<open>Timeout\<close>. A failed call leaves the map as it was.
\<close>

definition call_failure :: "ctx \<Rightarrow> substrate \<Rightarrow> error option" where
  "call_failure c s =
     (if \<not> up s then Some Unavailable
      else case c of
        Background \<Rightarrow> None
      | WithTimeout d \<Rightarrow> if d < latency s then Some Timeout else None)"

text \<open>Modelled from the spec: the version the map holds for a key, if it holds the key.\<close>

definition version_of :: "substrate \<Rightarrow> string \<Rightarrow> int64 option" where
  "version_of s k = map_option snd (map_of (entries s) k)"

text \<open>Modelled from the spec: \<^verbatim>\<open>Map.Get\<close>.\<close>

definition map_Get :: "ctx \<Rightarrow> string \<Rightarrow> substrate \<Rightarrow> (error + Entry option) \<times> substrate" where
  "map_Get c k s =
     (case call_failure c s of
        Some err \<Rightarrow> (Inl err, s)
      | None \<Rightarrow>
          (case map_of (entries s) k of
             None \<Rightarrow> (Inr None, s)
           | Some (v, n) \<Rightarrow> (Inr (Some \<lparr>Key = k, Value = v, Version = n\<rparr>), s)))"

text \<open>
  Modelled from the spec: \<^verbatim>\<open>Map.Put\<close>; the third argument is the option
  \<^verbatim>\<open>_map.IfVersion(v)\<close>. A put has the two outcomes of the contract: the entry with
  its new version, or the version mismatch (also when the key is absent, for which the
  contract of put names no outcome of its own).
\<close>

definition map_Put ::
  "ctx \<Rightarrow> string \<Rightarrow> bytes \<Rightarrow> int64 option \<Rightarrow> substrate \<Rightarrow> (error + Entry) \<times> substrate" where
  "map_Put c k v ifVersion s =
     (case call_failure c s of
        Some err \<Rightarrow> (Inl err, s)
      | None \<Rightarrow>
          if ifVersion \<noteq> None \<and> version_of s k \<noteq> ifVersion then (Inl Conflict, s)
          else
            (Inr \<lparr>Key = k, Value = v, Version = index s + 1\<rparr>,
             s\<lparr>entries := AList.update k (v, index s + 1) (entries s),
               index := index s + 1\<rparr>))"

text \<open>Modelled from the spec: \<^verbatim>\<open>Map.Remove\<close>, with the same option.\<close>

definition map_Remove ::
  "ctx \<Rightarrow> string \<Rightarrow> int64 option \<Rightarrow> substrate \<Rightarrow> (error + unit) \<times> substrate" where
  "map_Remove c k ifVersion s =
     (case call_failure c s of
        Some err \<Rightarrow> (Inl err, s)
      | None \<Rightarrow>
          if version_of s k = None then (Inl NotFound, s)
          else if ifVersion \<noteq> None \<and> version_of s k \<noteq> ifVersion then (Inl Conflict, s)
          else (Inr (), s\<lparr>entries := AList.delete k (entries s)\<rparr>))"

text \<open>Modelled from the spec: the entries of the map as \<^verbatim>\<open>_map.Entry\<close> values, in order.\<close>

definition stored_entries :: "substrate \<Rightarrow> Entry list" where
  "stored_entries s = map (\<lambda>(k, v, n). \<lparr>Key = k, Value = v, Version = n\<rparr>) (entries s)"

text \<open>
  Modelled from the spec: how the opening of a stream fails. A map that is lost only
  after some items of the stream opens it; otherwise a stream is opened as a call is
  answered.
\<close>

definition stream_failure :: "ctx \<Rightarrow> substrate \<Rightarrow> error option" where
  "stream_failure c s =
     (if \<not> up s \<and> lost_after s \<noteq> None then None else call_failure c s)"

text \<open>
  Modelled from the spec: what an open stream carries of the items \<open>xs\<close> it has to
  send before its channel is closed: all of them on a map that stays reachable, the
  first \<open>n\<close> on a map that is lost after \<open>n\<close> items. The channel carries items
  only, so the failure itself is not on it.
\<close>

definition sent :: "substrate \<Rightarrow> 'a list \<Rightarrow> 'a list" where
  "sent s xs =
     (if up s then xs else case lost_after s of None \<Rightarrow> [] | Some n \<Rightarrow> take n xs)"

text \<open>
  Modelled from the spec: \<^verbatim>\<open>Map.Entries\<close>, the entries sent on the channel, in
  order, until the channel is closed.
\<close>

definition map_Entries :: "ctx \<Rightarrow> substrate \<Rightarrow> (error + Entry list) \<times> substrate" where
  "map_Entries c s =
     (case stream_failure c s of
        Some err \<Rightarrow> (Inl err, s)
      | None \<Rightarrow> (Inr (sent s (stored_entries s)), s))"

text \<open>
  Modelled from the spec: the replay, one event for each entry present. The spec
  leaves the type of a replay event open; it is \<open>EventNone\<close> here, the type the
  service test sees for a record that was there before the subscription.
\<close>

definition replay_events :: "substrate \<Rightarrow> MapEvent list" where
  "replay_events s = map (\<lambda>e. \<lparr>MapType = EventNone, MapEntry = e\<rparr>) (stored_entries s)"

text \<open>
  Modelled from the spec: \<^verbatim>\<open>Map.Watch\<close>. With \<^verbatim>\<open>_map.WithReplay()\<close> the channel
  first carries the replay, then the live events; \<open>live\<close> is the sequence of events
  the map has to send after the subscription, as far as the caller consumes it.
\<close>

definition map_Watch ::
  "ctx \<Rightarrow> bool \<Rightarrow> MapEvent list \<Rightarrow> substrate \<Rightarrow> (error + MapEvent list) \<times> substrate" where
  "map_Watch c replay live s =
     (case stream_failure c s of
        Some err \<Rightarrow> (Inl err, s)
      | None \<Rightarrow> (Inr (sent s ((if replay then replay_events s else []) @ live)), s))"

subsection \<open>The store: \<^verbatim>\<open>atomixStore\<close>\<close>

text \<open>\<^verbatim>\<open>Event\<close>: a store event for a device.\<close>

record Event =
  Type :: EventType
  Device :: Device

definition decodeDevice :: "Device codec \<Rightarrow> Entry \<Rightarrow> error + Device" where
  "decodeDevice c entry =
     (case Unmarshal c (Value entry) of
        None \<Rightarrow> Inl UnmarshalError
      | Some device \<Rightarrow> Inr (device\<lparr>ID := Key entry, Revision := Version entry\<rparr>))"

text \<open>
  \<^verbatim>\<open>Load\<close> returns a pointer and an error: \<open>Inl err\<close> is \<^verbatim>\<open>(nil, err)\<close>,
  \<open>Inr None\<close> is \<^verbatim>\<open>(nil, nil)\<close> and \<open>Inr (Some d)\<close> a fresh device with a nil
  error. Every operation also returns the map as it leaves it.
\<close>

definition Load :: "Device codec \<Rightarrow> string \<Rightarrow> substrate \<Rightarrow> (error + Device option) \<times> substrate" where
  "Load c deviceID s =
     (case map_Get (WithTimeout (15 * Second)) deviceID s of
        (Inl err, s') \<Rightarrow> (Inl err, s')
      | (Inr None, s') \<Rightarrow> (Inr None, s')
      | (Inr (Some entry), s') \<Rightarrow>
          (case decodeDevice c entry of
             Inl err \<Rightarrow> (Inl err, s')
           | Inr device \<Rightarrow> (Inr (Some device), s')))"

text \<open>
  \<^verbatim>\<open>Store\<close> takes a pointer and assigns the revision through it. Here the device
  goes in as a value and \<open>Inr device'\<close> is the value behind the pointer after a nil
  error; after an error the device is as it was. \<open>Store_at\<close> below is the same
  operation on a heap.
\<close>

definition Store :: "Device codec \<Rightarrow> Device \<Rightarrow> substrate \<Rightarrow> (error + Device) \<times> substrate" where
  "Store c device s =
     (case Marshal c device of
        None \<Rightarrow> (Inl MarshalError, s)
      | Some bytes \<Rightarrow>
          (case (if Revision device = 0
                 then map_Put (WithTimeout (15 * Second)) (ID device) bytes None s
                 else map_Put (WithTimeout (15 * Second)) (ID device) bytes
                        (Some (Revision device)) s) of
             (Inl err, s') \<Rightarrow> (Inl err, s')
           | (Inr entry, s') \<Rightarrow> (Inr (device\<lparr>Revision := Version entry\<rparr>), s')))"

definition Delete :: "Device \<Rightarrow> substrate \<Rightarrow> (error + unit) \<times> substrate" where
  "Delete device s =
     (if 0 < Revision device
      then map_Remove (WithTimeout (15 * Second)) (ID device) (Some (Revision device)) s
      else map_Remove (WithTimeout (15 * Second)) (ID device) None s)"

text \<open>
  \<^verbatim>\<open>List\<close> and \<^verbatim>\<open>Watch\<close> return the error of opening the stream; the goroutine
  then forwards to the caller's channel. \<open>Inr xs\<close> is a nil error together with the
  sequence \<open>xs\<close> sent on the caller's channel, in order. An entry that does not decode
  is not sent.
\<close>

fun forward_devices :: "Device codec \<Rightarrow> Entry list \<Rightarrow> Device list" where
  "forward_devices c [] = []"
| "forward_devices c (entry # rest) =
     (case decodeDevice c entry of
        Inr device \<Rightarrow> device # forward_devices c rest
      | Inl err \<Rightarrow> forward_devices c rest)"

definition List :: "Device codec \<Rightarrow> substrate \<Rightarrow> (error + Device list) \<times> substrate" where
  "List c s =
     (case map_Entries Background s of
        (Inl err, s') \<Rightarrow> (Inl err, s')
      | (Inr mapCh, s') \<Rightarrow> (Inr (forward_devices c mapCh), s'))"

fun forward_events :: "Device codec \<Rightarrow> MapEvent list \<Rightarrow> Event list" where
  "forward_events c [] = []"
| "forward_events c (event # rest) =
     (case decodeDevice c (MapEntry event) of
        Inr device \<Rightarrow> \<lparr>Type = MapType event, Device = device\<rparr> # forward_events c rest
      | Inl err \<Rightarrow> forward_events c rest)"

definition Watch ::
  "Device codec \<Rightarrow> MapEvent list \<Rightarrow> substrate \<Rightarrow> (error + Event list) \<times> substrate" where
  "Watch c live s =
     (case map_Watch Background True live s of
        (Inl err, s') \<Rightarrow> (Inl err, s')
      | (Inr mapCh, s') \<Rightarrow> (Inr (forward_events c mapCh), s'))"

subsection \<open>The same operations on the caller's pointers\<close>

text \<open>
  The store takes and returns pointers to devices. A heap is the list of the devices
  allocated so far and a pointer is an index into it; \<^verbatim>\<open>&deviceapi.Device{}\<close> in
  \<^verbatim>\<open>decodeDevice\<close> allocates at the end. A pointer outside the heap stands for nil.
\<close>

type_synonym ref = nat
type_synonym heap = "Device list"

definition Load_at ::
  "Device codec \<Rightarrow> string \<Rightarrow> heap \<Rightarrow> substrate \<Rightarrow> (error + ref option) \<times> heap \<times> substrate" where
  "Load_at c deviceID h s =
     (case Load c deviceID s of
        (Inl err, s') \<Rightarrow> (Inl err, h, s')
      | (Inr None, s') \<Rightarrow> (Inr None, h, s')
      | (Inr (Some device), s') \<Rightarrow> (Inr (Some (length h)), h @ [device], s'))"

definition Store_at ::
  "Device codec \<Rightarrow> ref \<Rightarrow> heap \<Rightarrow> substrate \<Rightarrow> error option \<times> heap \<times> substrate" where
  "Store_at c p h s =
     (if length h \<le> p then (Some NilPointer, h, s)
      else case Store c (h ! p) s of
        (Inl err, s') \<Rightarrow> (Some err, h, s')
      | (Inr device', s') \<Rightarrow> (None, h[p := device'], s'))"

definition Delete_at :: "ref \<Rightarrow> heap \<Rightarrow> substrate \<Rightarrow> error option \<times> heap \<times> substrate" where
  "Delete_at p h s =
     (if length h \<le> p then (Some NilPointer, h, s)
      else case Delete (h ! p) s of
        (Inl err, s') \<Rightarrow> (Some err, h, s')
      | (Inr u, s') \<Rightarrow> (None, h, s'))"

definition List_at ::
  "Device codec \<Rightarrow> heap \<Rightarrow> substrate \<Rightarrow> (error + ref list) \<times> heap \<times> substrate" where
  "List_at c h s =
     (case List c s of
        (Inl err, s') \<Rightarrow> (Inl err, h, s')
      | (Inr devices, s') \<Rightarrow>
          (Inr [length h ..< length h + length devices], h @ devices, s'))"

definition Watch_at ::
  "Device codec \<Rightarrow> MapEvent list \<Rightarrow> heap \<Rightarrow> substrate
     \<Rightarrow> (error + (EventType \<times> ref) list) \<times> heap \<times> substrate" where
  "Watch_at c live h s =
     (case Watch c live s of
        (Inl err, s') \<Rightarrow> (Inl err, h, s')
      | (Inr events, s') \<Rightarrow>
          (Inr (zip (map Type events) [length h ..< length h + length events]),
           h @ map Device events, s'))"

subsection \<open>Sequences of operations\<close>

datatype op = OpLoad string | OpStore Device | OpDelete Device

fun step :: "Device codec \<Rightarrow> op \<Rightarrow> substrate \<Rightarrow> substrate" where
  "step c (OpLoad k) s = snd (Load c k s)"
| "step c (OpStore d) s = snd (Store c d s)"
| "step c (OpDelete d) s = snd (Delete d s)"

definition run :: "Device codec \<Rightarrow> op list \<Rightarrow> substrate \<Rightarrow> substrate" where
  "run c ops s = fold (step c) ops s"

subsection \<open>The older store: \<^verbatim>\<open>atomixDeviceStore\<close>\<close>

record ObjectMetadata =
  Id_meta :: string
  Version_meta :: uint64

text \<open>
  \<^verbatim>\<open>deviceproto.Device\<close> is declared in \<^verbatim>\<open>pkg/northbound/proto\<close>, outside the sources.
  The store reads and writes \<^verbatim>\<open>Id\<close> (the field \<open>Id_dev\<close>) and \<^verbatim>\<open>Metadata\<close> only; the other fields of the
  message are the extension of the record.
\<close>

record DeviceProto =
  Id_dev :: string
  Metadata :: "ObjectMetadata option"

text \<open>\<^verbatim>\<open>DeviceEvent\<close> of the older store.\<close>

record ('a) DeviceEvent =
  Type_legacy :: EventType
  Device_legacy :: "'a DeviceProto_scheme"

definition legacy_decodeDevice ::
  "'a DeviceProto_scheme codec \<Rightarrow> string \<Rightarrow> bytes \<Rightarrow> int64 \<Rightarrow> error + 'a DeviceProto_scheme" where
  "legacy_decodeDevice c key val version =
     (case Unmarshal c val of
        None \<Rightarrow> Inl UnmarshalError
      | Some device \<Rightarrow>
          Inr (device\<lparr>Metadata := Some \<lparr>Id_meta = key, Version_meta = version\<rparr>\<rparr>))"

text \<open>The older \<^verbatim>\<open>Load\<close> reads \<^verbatim>\<open>kv.Key\<close> without testing \<^verbatim>\<open>kv\<close> for nil.\<close>

definition legacy_Load ::
  "'a DeviceProto_scheme codec \<Rightarrow> string \<Rightarrow> substrate
     \<Rightarrow> (error + 'a DeviceProto_scheme) \<times> substrate" where
  "legacy_Load c deviceID s =
     (case map_Get (WithTimeout (15 * Second)) deviceID s of
        (Inl err, s') \<Rightarrow> (Inl err, s')
      | (Inr None, s') \<Rightarrow> (Inl NilPointer, s')
      | (Inr (Some kv), s') \<Rightarrow>
          (case legacy_decodeDevice c (Key kv) (Value kv) (Version kv) of
             Inl err \<Rightarrow> (Inl err, s')
           | Inr device \<Rightarrow> (Inr device, s')))"

definition legacy_Store ::
  "'a DeviceProto_scheme codec \<Rightarrow> 'a DeviceProto_scheme \<Rightarrow> substrate
     \<Rightarrow> (error + 'a DeviceProto_scheme) \<times> substrate" where
  "legacy_Store c device s =
     (case Marshal c device of
        None \<Rightarrow> (Inl MarshalError, s)
      | Some bytes \<Rightarrow>
          (case (case Metadata device of
                   None \<Rightarrow> map_Put (WithTimeout (15 * Second)) (Id_dev device) bytes None s
                 | Some m \<Rightarrow>
                     if Version_meta m = 0
                     then map_Put (WithTimeout (15 * Second)) (Id_dev device) bytes None s
                     else map_Put (WithTimeout (15 * Second)) (Id_dev device) bytes
                            (Some (Version_meta m)) s) of
             (Inl err, s') \<Rightarrow> (Inl err, s')
           | (Inr kv, s') \<Rightarrow>
               (Inr (device\<lparr>Metadata :=
                       Some \<lparr>Id_meta = Id_dev device, Version_meta = Version kv\<rparr>\<rparr>), s')))"

definition legacy_Delete :: "'a DeviceProto_scheme \<Rightarrow> substrate \<Rightarrow> (error + unit) \<times> substrate" where
  "legacy_Delete device s =
     (case Metadata device of
        None \<Rightarrow> map_Remove (WithTimeout (15 * Second)) (Id_dev device) None s
      | Some m \<Rightarrow>
          if 0 < Version_meta m
          then map_Remove (WithTimeout (15 * Second)) (Id_meta m) (Some (Version_meta m)) s
          else map_Remove (WithTimeout (15 * Second)) (Id_dev device) None s)"

fun legacy_forward_devices ::
  "'a DeviceProto_scheme codec \<Rightarrow> Entry list \<Rightarrow> 'a DeviceProto_scheme list" where
  "legacy_forward_devices c [] = []"
| "legacy_forward_devices c (kv # rest) =
     (case legacy_decodeDevice c (Key kv) (Value kv) (Version kv) of
        Inr device \<Rightarrow> device # legacy_forward_devices c rest
      | Inl err \<Rightarrow> legacy_forward_devices c rest)"

definition legacy_List ::
  "'a DeviceProto_scheme codec \<Rightarrow> substrate
     \<Rightarrow> (error + 'a DeviceProto_scheme list) \<times> substrate" where
  "legacy_List c s =
     (case map_Entries Background s of
        (Inl err, s') \<Rightarrow> (Inl err, s')
      | (Inr mapCh, s') \<Rightarrow> (Inr (legacy_forward_devices c mapCh), s'))"

fun legacy_forward_events ::
  "'a DeviceProto_scheme codec \<Rightarrow> MapEvent list \<Rightarrow> 'a DeviceEvent list" where
  "legacy_forward_events c [] = []"
| "legacy_forward_events c (event # rest) =
     (case legacy_decodeDevice c (Key (MapEntry event)) (Value (MapEntry event))
             (Version (MapEntry event)) of
        Inr device \<Rightarrow>
          \<lparr>Type_legacy = MapType event, Device_legacy = device\<rparr>
            # legacy_forward_events c rest
      | Inl err \<Rightarrow> legacy_forward_events c rest)"

definition legacy_Watch ::
  "'a DeviceProto_scheme codec \<Rightarrow> MapEvent list \<Rightarrow> substrate
     \<Rightarrow> (error + 'a DeviceEvent list) \<times> substrate" where
  "legacy_Watch c live s =
     (case map_Watch Background True live s of
        (Inl err, s') \<Rightarrow> (Inl err, s')
      | (Inr mapCh, s') \<Rightarrow> (Inr (legacy_forward_events c mapCh), s'))"

subsection \<open>Concrete values for the instances below\<close>

definition blank_device :: Device where
  "blank_device =
     \<lparr>ID = '''', Revision = 0, Type_dev = '''', Role = '''', Target = '''', Address = '''',
      Version_dev = '''', Timeout_dev = None,
      Credentials = \<lparr>User = '''', Password = ''''\<rparr>,
      TLS = \<lparr>Cert = '''', Key_tls = '''', CaCert = '''', Plain = False, Insecure = False\<rparr>,
      Attributes = [], Protocols = []\<rparr>"

definition device_foo :: Device where
  "device_foo =
     blank_device\<lparr>ID := ''device-foo'', Type_dev := ''test'',
       Address := ''device-foo:1234'', Version_dev := ''1.0.0''\<rparr>"

text \<open>
  A stand-in for the protobuf encoding that is faithful on one device: every device
  is written as the single byte 1, and that byte is read back as \<open>d\<close>; nothing else
  decodes.
\<close>

definition one_device_codec :: "'d \<Rightarrow> 'd codec" where
  "one_device_codec d =
     \<lparr>Marshal = (\<lambda>x. Some [1]), Unmarshal = (\<lambda>b. if b = [1] then Some d else None)\<rparr>"

definition empty_map :: substrate where
  "empty_map = \<lparr>entries = [], index = 0, up = True, latency = 1000000, lost_after = None\<rparr>"

text \<open>
  A map that holds one entry, written at index 1 under the key \<open>device-foo\<close>; the
  same map with a value that does not decode; and the same map answering after 16
  seconds.
\<close>

definition foo_map :: substrate where
  "foo_map =
     \<lparr>entries = [(''device-foo'', [1], 1)], index = 1, up = True, latency = 1000000,
      lost_after = None\<rparr>"


definition slow_map :: substrate where
  "slow_map =
     \<lparr>entries = [(''device-foo'', [1], 1)], index = 1, up = True, latency = 16 * Second,
      lost_after = None\<rparr>"


text \<open>
  A map with two entries that decode, which is lost when it has sent one item of a
  stream.
\<close>

definition lost_map :: substrate where
  "lost_map =
     \<lparr>entries = [(''device-foo'', [1], 1), (''device-bar'', [1], 2)], index = 2, up = False,
      latency = 1000000, lost_after = Some 1\<rparr>"

section \<open>Properties\<close>

subsection \<open>The map\<close>

lemma call_failure_deadline:
  "call_failure (WithTimeout t) s =
     (if \<not> up s then Some Unavailable else if t < latency s then Some Timeout else None)"
  by (simp add: call_failure_def)

lemma call_failure_Background:
  "call_failure Background s = (if up s then None else Some Unavailable)"
  by (simp add: call_failure_def)


text \<open>The operations of the map, for unfolding them on concrete maps.\<close>

lemmas map_operations =
  call_failure_def version_of_def map_Get_def map_Put_def map_Remove_def map_Entries_def
  map_Watch_def stored_entries_def replay_events_def stream_failure_def sent_def

subsection \<open>Decoding and forwarding\<close>

lemma decodeDevice_Inr:
  "decodeDevice c entry = Inr d \<Longrightarrow> ID d = Key entry \<and> Revision d = Version entry"
  by (auto simp: decodeDevice_def split: option.splits)

text \<open>
  The two loops written with the functions of the library: each sends, in the order of
  the channel, what decodes, stamped with the key and the version of its own entry.
\<close>

lemma forward_events_map_filter:
  "forward_events c ms = List.map_filter (\<lambda>e. case Unmarshal c (Value (MapEntry e)) of
                None \<Rightarrow> None
              | Some x \<Rightarrow>
                  Some \<lparr>Type = MapType e,
                        Device = x\<lparr>ID := Key (MapEntry e),
                                    Revision := Version (MapEntry e)\<rparr>\<rparr>) ms"
  by (induction ms) (auto simp: decodeDevice_def split: option.splits)

lemma forward_stored:
  "forward_devices c (map (\<lambda>(k, v, n). \<lparr>Key = k, Value = v, Version = n\<rparr>) kvs) =
     List.map_filter (\<lambda>(k, v, n). case Unmarshal c v of
                None \<Rightarrow> None
              | Some x \<Rightarrow> Some (x\<lparr>ID := k, Revision := n\<rparr>)) kvs"
  by (induction kvs) (auto simp: decodeDevice_def split: option.splits)

lemma List_exact:
  "List c s =
     (if up s then (Inr (List.map_filter (\<lambda>(k, v, n). case Unmarshal c v of
                None \<Rightarrow> None
              | Some x \<Rightarrow> Some (x\<lparr>ID := k, Revision := n\<rparr>)) (entries s)), s)
      else case lost_after s of
        None \<Rightarrow> (Inl Unavailable, s)
      | Some m \<Rightarrow> (Inr (List.map_filter (\<lambda>(k, v, n). case Unmarshal c v of
                None \<Rightarrow> None
              | Some x \<Rightarrow> Some (x\<lparr>ID := k, Revision := n\<rparr>)) (take m (entries s))), s))"
  by (simp add: List_def map_Entries_def stream_failure_def sent_def call_failure_Background
      stored_entries_def forward_stored take_map split: option.splits)

lemma Watch_exact:
  "Watch c live s =
     (if up s
      then (Inr (List.map_filter (\<lambda>e. case Unmarshal c (Value (MapEntry e)) of
                None \<Rightarrow> None
              | Some x \<Rightarrow>
                  Some \<lparr>Type = MapType e,
                        Device = x\<lparr>ID := Key (MapEntry e),
                                    Revision := Version (MapEntry e)\<rparr>\<rparr>)
                   (map (\<lambda>(k, v, n). \<lparr>MapType = EventNone,
                               MapEntry = \<lparr>Key = k, Value = v, Version = n\<rparr>\<rparr>)
              (entries s) @ live)), s)
      else case lost_after s of
        None \<Rightarrow> (Inl Unavailable, s)
      | Some m \<Rightarrow>
          (Inr (List.map_filter (\<lambda>e. case Unmarshal c (Value (MapEntry e)) of
                None \<Rightarrow> None
              | Some x \<Rightarrow>
                  Some \<lparr>Type = MapType e,
                        Device = x\<lparr>ID := Key (MapEntry e),
                                    Revision := Version (MapEntry e)\<rparr>\<rparr>)
                  (take m
                     (map (\<lambda>(k, v, n). \<lparr>MapType = EventNone,
                               MapEntry = \<lparr>Key = k, Value = v, Version = n\<rparr>\<rparr>)
              (entries s) @ live))), s))"
  by (simp add: Watch_def map_Watch_def stream_failure_def sent_def call_failure_Background
      stored_entries_def replay_events_def comp_def case_prod_unfold
      forward_events_map_filter split: option.splits)


lemma stamped_keys:
  "map (\<lambda>x. (ID x, Revision x)) (List.map_filter (\<lambda>(k, v, n). case Unmarshal c v of
                None \<Rightarrow> None
              | Some x \<Rightarrow> Some (x\<lparr>ID := k, Revision := n\<rparr>)) kvs) =
   map (\<lambda>(k, v, n). (k, n)) (filter (\<lambda>(k, v, n). Unmarshal c v \<noteq> None) kvs)"
  by (induction kvs) (auto split: option.splits)


lemma stamped_events:
  "map (\<lambda>ev. (Type ev, ID (Device ev), Revision (Device ev)))
     (List.map_filter (\<lambda>e. case Unmarshal c (Value (MapEntry e)) of
                None \<Rightarrow> None
              | Some x \<Rightarrow>
                  Some \<lparr>Type = MapType e,
                        Device = x\<lparr>ID := Key (MapEntry e),
                                    Revision := Version (MapEntry e)\<rparr>\<rparr>) ms) =
   map (\<lambda>e. (MapType e, Key (MapEntry e), Version (MapEntry e)))
     (filter (\<lambda>e. Unmarshal c (Value (MapEntry e)) \<noteq> None) ms)"
  by (induction ms) (auto split: option.splits)

text \<open>The same for the loops of the older store.\<close>

lemma legacy_forward_stored:
  "legacy_forward_devices lc
     (map (\<lambda>(k, v, n). \<lparr>Key = k, Value = v, Version = n\<rparr>) kvs) =
     List.map_filter (\<lambda>(k, v, n). case Unmarshal lc v of
                None \<Rightarrow> None
              | Some x \<Rightarrow> Some (x\<lparr>Metadata := Some \<lparr>Id_meta = k, Version_meta = n\<rparr>\<rparr>)) kvs"
  by (induction kvs) (auto simp: legacy_decodeDevice_def split: option.splits)

lemma legacy_forward_events_map_filter:
  "legacy_forward_events lc ms = List.map_filter (\<lambda>e. case Unmarshal lc (Value (MapEntry e)) of
                None \<Rightarrow> None
              | Some x \<Rightarrow>
                  Some \<lparr>Type_legacy = MapType e,
                        Device_legacy =
                          x\<lparr>Metadata := Some \<lparr>Id_meta = Key (MapEntry e),
                                                Version_meta = Version (MapEntry e)\<rparr>\<rparr>\<rparr>) ms"
  by (induction ms) (auto simp: legacy_decodeDevice_def split: option.splits)

lemma legacy_List_exact:
  "legacy_List lc s =
     (if up s then (Inr (List.map_filter (\<lambda>(k, v, n). case Unmarshal lc v of
                None \<Rightarrow> None
              | Some x \<Rightarrow> Some (x\<lparr>Metadata := Some \<lparr>Id_meta = k, Version_meta = n\<rparr>\<rparr>)) (entries s)), s)
      else case lost_after s of
        None \<Rightarrow> (Inl Unavailable, s)
      | Some m \<Rightarrow> (Inr (List.map_filter (\<lambda>(k, v, n). case Unmarshal lc v of
                None \<Rightarrow> None
              | Some x \<Rightarrow> Some (x\<lparr>Metadata := Some \<lparr>Id_meta = k, Version_meta = n\<rparr>\<rparr>)) (take m (entries s))), s))"
  by (simp add: legacy_List_def map_Entries_def stream_failure_def sent_def
      call_failure_Background stored_entries_def legacy_forward_stored take_map
      split: option.splits)

lemma legacy_Watch_exact:
  "legacy_Watch lc live s =
     (if up s
      then (Inr (List.map_filter (\<lambda>e. case Unmarshal lc (Value (MapEntry e)) of
                None \<Rightarrow> None
              | Some x \<Rightarrow>
                  Some \<lparr>Type_legacy = MapType e,
                        Device_legacy =
                          x\<lparr>Metadata := Some \<lparr>Id_meta = Key (MapEntry e),
                                                Version_meta = Version (MapEntry e)\<rparr>\<rparr>\<rparr>)
                   (map (\<lambda>(k, v, n). \<lparr>MapType = EventNone,
                               MapEntry = \<lparr>Key = k, Value = v, Version = n\<rparr>\<rparr>)
              (entries s) @ live)), s)
      else case lost_after s of
        None \<Rightarrow> (Inl Unavailable, s)
      | Some m \<Rightarrow>
          (Inr (List.map_filter (\<lambda>e. case Unmarshal lc (Value (MapEntry e)) of
                None \<Rightarrow> None
              | Some x \<Rightarrow>
                  Some \<lparr>Type_legacy = MapType e,
                        Device_legacy =
                          x\<lparr>Metadata := Some \<lparr>Id_meta = Key (MapEntry e),
                                                Version_meta = Version (MapEntry e)\<rparr>\<rparr>\<rparr>)
                  (take m
                     (map (\<lambda>(k, v, n). \<lparr>MapType = EventNone,
                               MapEntry = \<lparr>Key = k, Value = v, Version = n\<rparr>\<rparr>)
              (entries s) @ live))), s))"
  by (simp add: legacy_Watch_def map_Watch_def stream_failure_def sent_def
      call_failure_Background stored_entries_def replay_events_def comp_def case_prod_unfold
      legacy_forward_events_map_filter split: option.splits)

subsection \<open>Key and version of a decoded device\<close>

text \<open>
  C10, as the code has it. In the newer store every device that \<open>Load\<close>, \<open>List\<close>
  or \<open>Watch\<close> produces has the key of the map entry it was decoded from as its
  \<open>ID\<close> and the version of that entry as its \<open>Revision\<close>, whatever the stored
  bytes decode to: the codec \<open>c\<close> is arbitrary. \<open>Load\<close> of \<open>k\<close> returns a device
  with \<open>k\<close> and the version the map holds for \<open>k\<close>. What \<open>List\<close> sends is, entry
  by entry and in order, the decoding of the first \<open>m\<close> entries of the map (all of
  them on a map that stays reachable), each device stamped with the key and the version
  of its own entry; what \<open>Watch\<close> sends is the same of the first \<open>m\<close> events of the
  map, replay and then live, each with the type of its own event. In the older store
  the key and the version are put into the metadata of the device, as
  \<^verbatim>\<open>Metadata.Id\<close> and \<^verbatim>\<open>Metadata.Version\<close>, and nothing else of the decoded device is
  changed: its field \<^verbatim>\<open>Id\<close> is as the bytes have it.
\<close>

theorem decoded_identity:
  "(decodeDevice c entry = Inr d \<longrightarrow> ID d = Key entry \<and> Revision d = Version entry)
   \<and> (Load c k s = (Inr (Some d1), s1) \<longrightarrow>
        ID d1 = k \<and> version_of s k = Some (Revision d1))
   \<and> (List c s = (Inr ds, s2) \<longrightarrow>
        (\<exists>m. (up s \<longrightarrow> m = length (entries s))
           \<and> ds = List.map_filter (\<lambda>(k, v, n). case Unmarshal c v of
                None \<Rightarrow> None
              | Some x \<Rightarrow> Some (x\<lparr>ID := k, Revision := n\<rparr>)) (take m (entries s))
           \<and> map (\<lambda>x. (ID x, Revision x)) ds =
               map (\<lambda>(k, v, n). (k, n))
                 (filter (\<lambda>(k, v, n). Unmarshal c v \<noteq> None) (take m (entries s)))))
   \<and> (Watch c live s = (Inr evs, s3) \<longrightarrow>
        (\<exists>m. (up s \<longrightarrow> m = length (entries s) + length live)
           \<and> evs = List.map_filter (\<lambda>e. case Unmarshal c (Value (MapEntry e)) of
                None \<Rightarrow> None
              | Some x \<Rightarrow>
                  Some \<lparr>Type = MapType e,
                        Device = x\<lparr>ID := Key (MapEntry e),
                                    Revision := Version (MapEntry e)\<rparr>\<rparr>)
                     (take m
                        (map (\<lambda>(k, v, n). \<lparr>MapType = EventNone,
                               MapEntry = \<lparr>Key = k, Value = v, Version = n\<rparr>\<rparr>)
              (entries s) @ live))
           \<and> map (\<lambda>ev. (Type ev, ID (Device ev), Revision (Device ev))) evs =
               map (\<lambda>e. (MapType e, Key (MapEntry e), Version (MapEntry e)))
                 (filter (\<lambda>e. Unmarshal c (Value (MapEntry e)) \<noteq> None)
                    (take m
                       (map (\<lambda>(k, v, n). \<lparr>MapType = EventNone,
                               MapEntry = \<lparr>Key = k, Value = v, Version = n\<rparr>\<rparr>)
              (entries s) @ live)))))
   \<and> (legacy_decodeDevice lc key val version = Inr ld \<longrightarrow>
        (\<exists>ld0. Unmarshal lc val = Some ld0
           \<and> ld = ld0\<lparr>Metadata := Some \<lparr>Id_meta = key, Version_meta = version\<rparr>\<rparr>))
   \<and> (legacy_Load lc k s = (Inr ld1, s4) \<longrightarrow>
        (\<exists>bs ver ld0. map_of (entries s) k = Some (bs, ver) \<and> Unmarshal lc bs = Some ld0
           \<and> ld1 = ld0\<lparr>Metadata := Some \<lparr>Id_meta = k, Version_meta = ver\<rparr>\<rparr>))
   \<and> (legacy_List lc s = (Inr lds, s5) \<longrightarrow>
        (\<exists>m. (up s \<longrightarrow> m = length (entries s))
           \<and> lds = List.map_filter (\<lambda>(k, v, n). case Unmarshal lc v of
                None \<Rightarrow> None
              | Some x \<Rightarrow> Some (x\<lparr>Metadata := Some \<lparr>Id_meta = k, Version_meta = n\<rparr>\<rparr>)) (take m (entries s))))
   \<and> (legacy_Watch lc live s = (Inr levs, s6) \<longrightarrow>
        (\<exists>m. (up s \<longrightarrow> m = length (entries s) + length live)
           \<and> levs = List.map_filter (\<lambda>e. case Unmarshal lc (Value (MapEntry e)) of
                None \<Rightarrow> None
              | Some x \<Rightarrow>
                  Some \<lparr>Type_legacy = MapType e,
                        Device_legacy =
                          x\<lparr>Metadata := Some \<lparr>Id_meta = Key (MapEntry e),
                                                Version_meta = Version (MapEntry e)\<rparr>\<rparr>\<rparr>)
                      (take m
                         (map (\<lambda>(k, v, n). \<lparr>MapType = EventNone,
                               MapEntry = \<lparr>Key = k, Value = v, Version = n\<rparr>\<rparr>)
              (entries s) @ live))))"
proof (intro conjI impI)
  assume "decodeDevice c entry = Inr d"
  then show "ID d = Key entry" "Revision d = Version entry"
    by (simp_all add: decodeDevice_Inr)
next
  assume "Load c k s = (Inr (Some d1), s1)"
  then obtain v n where e: "map_of (entries s) k = Some (v, n)"
    and dd: "decodeDevice c \<lparr>Key = k, Value = v, Version = n\<rparr> = Inr d1"
    by (auto simp: Load_def map_Get_def split: option.splits sum.splits prod.splits)
  from dd show "ID d1 = k"
    by (auto dest: decodeDevice_Inr)
  from dd e show "version_of s k = Some (Revision d1)"
    by (auto simp: version_of_def dest: decodeDevice_Inr)
next
  assume a: "List c s = (Inr ds, s2)"
  show "\<exists>m. (up s \<longrightarrow> m = length (entries s))
           \<and> ds = List.map_filter (\<lambda>(k, v, n). case Unmarshal c v of
                None \<Rightarrow> None
              | Some x \<Rightarrow> Some (x\<lparr>ID := k, Revision := n\<rparr>)) (take m (entries s))
           \<and> map (\<lambda>x. (ID x, Revision x)) ds =
               map (\<lambda>(k, v, n). (k, n))
                 (filter (\<lambda>(k, v, n). Unmarshal c v \<noteq> None) (take m (entries s)))"
  proof (cases "up s")
    case True
    with a have "ds = List.map_filter (\<lambda>(k, v, n). case Unmarshal c v of
                None \<Rightarrow> None
              | Some x \<Rightarrow> Some (x\<lparr>ID := k, Revision := n\<rparr>)) (take (length (entries s)) (entries s))"
      by (auto simp: List_exact)
    then show ?thesis
      using stamped_keys [of c "take (length (entries s)) (entries s)"] by blast
  next
    case False
    with a obtain m where "ds = List.map_filter (\<lambda>(k, v, n). case Unmarshal c v of
                None \<Rightarrow> None
              | Some x \<Rightarrow> Some (x\<lparr>ID := k, Revision := n\<rparr>)) (take m (entries s))"
      by (auto simp: List_exact split: option.splits)
    then show ?thesis
      using False stamped_keys [of c "take m (entries s)"] by blast
  qed
next
  assume a: "Watch c live s = (Inr evs, s3)"
  let ?stream = "map (\<lambda>(k, v, n). \<lparr>MapType = EventNone,
                               MapEntry = \<lparr>Key = k, Value = v, Version = n\<rparr>\<rparr>)
              (entries s) @ live"
  show "\<exists>m. (up s \<longrightarrow> m = length (entries s) + length live)
           \<and> evs = List.map_filter (\<lambda>e. case Unmarshal c (Value (MapEntry e)) of
                None \<Rightarrow> None
              | Some x \<Rightarrow>
                  Some \<lparr>Type = MapType e,
                        Device = x\<lparr>ID := Key (MapEntry e),
                                    Revision := Version (MapEntry e)\<rparr>\<rparr>)
                     (take m
                        (map (\<lambda>(k, v, n). \<lparr>MapType = EventNone,
                               MapEntry = \<lparr>Key = k, Value = v, Version = n\<rparr>\<rparr>)
              (entries s) @ live))
           \<and> map (\<lambda>ev. (Type ev, ID (Device ev), Revision (Device ev))) evs =
               map (\<lambda>e. (MapType e, Key (MapEntry e), Version (MapEntry e)))
                 (filter (\<lambda>e. Unmarshal c (Value (MapEntry e)) \<noteq> None)
                    (take m
                       (map (\<lambda>(k, v, n). \<lparr>MapType = EventNone,
                               MapEntry = \<lparr>Key = k, Value = v, Version = n\<rparr>\<rparr>)
              (entries s) @ live)))"
  proof (cases "up s")
    case True
    have "take (length (entries s) + length live) ?stream = ?stream"
      by simp
    with a True
    have "evs = List.map_filter (\<lambda>e. case Unmarshal c (Value (MapEntry e)) of
                None \<Rightarrow> None
              | Some x \<Rightarrow>
                  Some \<lparr>Type = MapType e,
                        Device = x\<lparr>ID := Key (MapEntry e),
                                    Revision := Version (MapEntry e)\<rparr>\<rparr>)
                  (take (length (entries s) + length live) ?stream)"
      by (auto simp: Watch_exact)
    then show ?thesis
      using stamped_events [of c "take (length (entries s) + length live) ?stream"] by blast
  next
    case False
    with a obtain m where "evs = List.map_filter (\<lambda>e. case Unmarshal c (Value (MapEntry e)) of
                None \<Rightarrow> None
              | Some x \<Rightarrow>
                  Some \<lparr>Type = MapType e,
                        Device = x\<lparr>ID := Key (MapEntry e),
                                    Revision := Version (MapEntry e)\<rparr>\<rparr>) (take m ?stream)"
      by (auto simp: Watch_exact split: option.splits)
    then show ?thesis
      using False stamped_events [of c "take m ?stream"] by blast
  qed
next
  assume "legacy_decodeDevice lc key val version = Inr ld"
  then show "\<exists>ld0. Unmarshal lc val = Some ld0
           \<and> ld = ld0\<lparr>Metadata := Some \<lparr>Id_meta = key, Version_meta = version\<rparr>\<rparr>"
    by (auto simp: legacy_decodeDevice_def split: option.splits)
next
  assume "legacy_Load lc k s = (Inr ld1, s4)"
  then show "\<exists>bs ver ld0. map_of (entries s) k = Some (bs, ver) \<and> Unmarshal lc bs = Some ld0
           \<and> ld1 = ld0\<lparr>Metadata := Some \<lparr>Id_meta = k, Version_meta = ver\<rparr>\<rparr>"
    by (auto simp: legacy_Load_def map_Get_def legacy_decodeDevice_def
        split: option.splits sum.splits prod.splits)
next
  assume a: "legacy_List lc s = (Inr lds, s5)"
  show "\<exists>m. (up s \<longrightarrow> m = length (entries s))
           \<and> lds = List.map_filter (\<lambda>(k, v, n). case Unmarshal lc v of
                None \<Rightarrow> None
              | Some x \<Rightarrow> Some (x\<lparr>Metadata := Some \<lparr>Id_meta = k, Version_meta = n\<rparr>\<rparr>)) (take m (entries s))"
  proof (cases "up s")
    case True
    with a have "lds = List.map_filter (\<lambda>(k, v, n). case Unmarshal lc v of
                None \<Rightarrow> None
              | Some x \<Rightarrow> Some (x\<lparr>Metadata := Some \<lparr>Id_meta = k, Version_meta = n\<rparr>\<rparr>)) (take (length (entries s)) (entries s))"
      by (auto simp: legacy_List_exact)
    then show ?thesis by blast
  next
    case False
    with a obtain m where "lds = List.map_filter (\<lambda>(k, v, n). case Unmarshal lc v of
                None \<Rightarrow> None
              | Some x \<Rightarrow> Some (x\<lparr>Metadata := Some \<lparr>Id_meta = k, Version_meta = n\<rparr>\<rparr>)) (take m (entries s))"
      by (auto simp: legacy_List_exact split: option.splits)
    then show ?thesis using False by blast
  qed
next
  assume a: "legacy_Watch lc live s = (Inr levs, s6)"
  let ?stream = "map (\<lambda>(k, v, n). \<lparr>MapType = EventNone,
                               MapEntry = \<lparr>Key = k, Value = v, Version = n\<rparr>\<rparr>)
              (entries s) @ live"
  show "\<exists>m. (up s \<longrightarrow> m = length (entries s) + length live)
           \<and> levs = List.map_filter (\<lambda>e. case Unmarshal lc (Value (MapEntry e)) of
                None \<Rightarrow> None
              | Some x \<Rightarrow>
                  Some \<lparr>Type_legacy = MapType e,
                        Device_legacy =
                          x\<lparr>Metadata := Some \<lparr>Id_meta = Key (MapEntry e),
                                                Version_meta = Version (MapEntry e)\<rparr>\<rparr>\<rparr>)
                      (take m
                         (map (\<lambda>(k, v, n). \<lparr>MapType = EventNone,
                               MapEntry = \<lparr>Key = k, Value = v, Version = n\<rparr>\<rparr>)
              (entries s) @ live))"
  proof (cases "up s")
    case True
    have "take (length (entries s) + length live) ?stream = ?stream"
      by simp
    with a True
    have "levs = List.map_filter (\<lambda>e. case Unmarshal lc (Value (MapEntry e)) of
                None \<Rightarrow> None
              | Some x \<Rightarrow>
                  Some \<lparr>Type_legacy = MapType e,
                        Device_legacy =
                          x\<lparr>Metadata := Some \<lparr>Id_meta = Key (MapEntry e),
                                                Version_meta = Version (MapEntry e)\<rparr>\<rparr>\<rparr>)
                   (take (length (entries s) + length live) ?stream)"
      by (auto simp: legacy_Watch_exact)
    then show ?thesis by blast
  next
    case False
    with a obtain m where "levs = List.map_filter (\<lambda>e. case Unmarshal lc (Value (MapEntry e)) of
                None \<Rightarrow> None
              | Some x \<Rightarrow>
                  Some \<lparr>Type_legacy = MapType e,
                        Device_legacy =
                          x\<lparr>Metadata := Some \<lparr>Id_meta = Key (MapEntry e),
                                                Version_meta = Version (MapEntry e)\<rparr>\<rparr>\<rparr>) (take m ?stream)"
      by (auto simp: legacy_Watch_exact split: option.splits)
    then show ?thesis using False by blast
  qed
qed

text \<open>
  An instance: the stored byte decodes to the blank device, with an empty \<open>ID\<close> and
  revision 0, and for the older store to a device with the \<^verbatim>\<open>Id\<close> \<open>other\<close>. What
  the newer store produces has the key \<open>device-foo\<close> and the version of the entry;
  from the map that is lost after one item, \<open>List\<close> sends the first entry.
\<close>

theorem decoded_identity_witness:
  "decodeDevice (one_device_codec blank_device)
       \<lparr>Key = ''device-foo'', Value = [1], Version = 7\<rparr>
     = Inr (blank_device\<lparr>ID := ''device-foo'', Revision := 7\<rparr>)
   \<and> Load (one_device_codec blank_device) ''device-foo'' foo_map
       = (Inr (Some (blank_device\<lparr>ID := ''device-foo'', Revision := 1\<rparr>)), foo_map)
   \<and> version_of foo_map ''device-foo'' = Some 1
   \<and> up foo_map \<and> entries foo_map = [(''device-foo'', [1], 1)]
   \<and> List (one_device_codec blank_device) foo_map
       = (Inr [blank_device\<lparr>ID := ''device-foo'', Revision := 1\<rparr>], foo_map)
   \<and> Watch (one_device_codec blank_device)
        [\<lparr>MapType = EventRemoved,
          MapEntry = \<lparr>Key = ''device-bar'', Value = [1], Version = 2\<rparr>\<rparr>] foo_map
       = (Inr [\<lparr>Type = EventNone,
                 Device = blank_device\<lparr>ID := ''device-foo'', Revision := 1\<rparr>\<rparr>,
               \<lparr>Type = EventRemoved,
                 Device = blank_device\<lparr>ID := ''device-bar'', Revision := 2\<rparr>\<rparr>], foo_map)
   \<and> List (one_device_codec blank_device) lost_map
       = (Inr [blank_device\<lparr>ID := ''device-foo'', Revision := 1\<rparr>], lost_map)
   \<and> legacy_decodeDevice (one_device_codec \<lparr>Id_dev = ''other'', Metadata = None\<rparr>)
         ''device-foo'' [1] 7
       = Inr \<lparr>Id_dev = ''other'',
              Metadata = Some \<lparr>Id_meta = ''device-foo'', Version_meta = 7\<rparr>\<rparr>
   \<and> legacy_Load (one_device_codec \<lparr>Id_dev = ''other'', Metadata = None\<rparr>)
         ''device-foo'' foo_map
       = (Inr \<lparr>Id_dev = ''other'',
               Metadata = Some \<lparr>Id_meta = ''device-foo'', Version_meta = 1\<rparr>\<rparr>, foo_map)
   \<and> legacy_List (one_device_codec \<lparr>Id_dev = ''other'', Metadata = None\<rparr>) foo_map
       = (Inr [\<lparr>Id_dev = ''other'',
                Metadata = Some \<lparr>Id_meta = ''device-foo'', Version_meta = 1\<rparr>\<rparr>], foo_map)
   \<and> legacy_Watch (one_device_codec \<lparr>Id_dev = ''other'', Metadata = None\<rparr>) [] foo_map
       = (Inr [\<lparr>Type_legacy = EventNone,
                Device_legacy =
                  \<lparr>Id_dev = ''other'',
                   Metadata = Some \<lparr>Id_meta = ''device-foo'', Version_meta = 1\<rparr>\<rparr>\<rparr>],
          foo_map)"
  using decoded_identity [where c = "one_device_codec blank_device"
      and entry = "\<lparr>Key = ''device-foo'', Value = [1], Version = 7\<rparr>"
      and d = "blank_device\<lparr>ID := ''device-foo'', Revision := 7\<rparr>"
      and k = "''device-foo''" and s = foo_map
      and ?d1.0 = "blank_device\<lparr>ID := ''device-foo'', Revision := 1\<rparr>" and ?s1.0 = foo_map
      and ds = "[blank_device\<lparr>ID := ''device-foo'', Revision := 1\<rparr>]" and ?s2.0 = foo_map
      and lc = "one_device_codec \<lparr>Id_dev = ''other'', Metadata = None\<rparr>"
      and key = "''device-foo''" and val = "[1]" and version = 7
      and ld = "\<lparr>Id_dev = ''other'',
                  Metadata = Some \<lparr>Id_meta = ''device-foo'', Version_meta = 7\<rparr>\<rparr>"]
    decoded_identity [where c = "one_device_codec blank_device" and s = lost_map
      and ds = "[blank_device\<lparr>ID := ''device-foo'', Revision := 1\<rparr>]" and ?s2.0 = lost_map]
  by (simp add: one_device_codec_def foo_map_def lost_map_def blank_device_def Second_def
      EventNone_def EventRemoved_def map_operations decodeDevice_def Load_def List_def
      Watch_def legacy_decodeDevice_def legacy_Load_def legacy_List_def legacy_Watch_def)

text \<open>
  The claim C10 as it is written fails for the older store: with bytes that decode
  to a device whose \<^verbatim>\<open>Id\<close> is \<open>other\<close>, stored under the key \<open>device-foo\<close>, the
  device that the older \<open>Load\<close> returns has the \<^verbatim>\<open>Id\<close> \<open>other\<close>, and only its
  metadata has the key.
\<close>

theorem legacy_Id_counterexample:
  "map_of (entries foo_map) ''device-foo'' = Some ([1], 1)
   \<and> Unmarshal (one_device_codec \<lparr>Id_dev = ''other'', Metadata = None\<rparr>) [1]
       = Some \<lparr>Id_dev = ''other'', Metadata = None\<rparr>
   \<and> fst (legacy_Load (one_device_codec \<lparr>Id_dev = ''other'', Metadata = None\<rparr>)
            ''device-foo'' foo_map)
       = Inr \<lparr>Id_dev = ''other'',
              Metadata = Some \<lparr>Id_meta = ''device-foo'', Version_meta = 1\<rparr>\<rparr>
   \<and> Id_dev \<lparr>Id_dev = ''other'',
              Metadata = Some \<lparr>Id_meta = ''device-foo'', Version_meta = 1\<rparr>\<rparr>
       \<noteq> ''device-foo''"
  by (simp add: one_device_codec_def foo_map_def Second_def map_operations
      legacy_decodeDevice_def legacy_Load_def)

subsection \<open>Load\<close>

text \<open>
  C2, as the code has it. \<open>Load\<close> leaves the map as it was. It never fails with
  \<open>NotFound\<close>: when the map answers in time, an absent id gives a nil device with a
  nil error, and a present id gives the device decoded from its entry, with the key as
  \<open>ID\<close> and the version as \<open>Revision\<close>, or the decoding error. When the call to
  the map fails, \<open>Load\<close> returns that error.
\<close>

theorem Load_result:
  "snd (Load c k s) = s
   \<and> fst (Load c k s) \<noteq> Inl NotFound
   \<and> (up s \<and> latency s \<le> 15 * Second \<longrightarrow>
        fst (Load c k s) =
          (case map_of (entries s) k of
             None \<Rightarrow> Inr None
           | Some (v, n) \<Rightarrow>
               (case Unmarshal c v of
                  None \<Rightarrow> Inl UnmarshalError
                | Some d \<Rightarrow> Inr (Some (d\<lparr>ID := k, Revision := n\<rparr>)))))
   \<and> (call_failure (WithTimeout (15 * Second)) s = Some e \<longrightarrow> fst (Load c k s) = Inl e)"
  by (auto simp: Load_def map_Get_def call_failure_deadline decodeDevice_def
      split: option.splits sum.splits prod.splits if_splits)

theorem Load_result_witness:
  "up foo_map \<and> latency foo_map \<le> 15 * Second
   \<and> Load (one_device_codec blank_device) ''device-foo'' foo_map =
       (Inr (Some (blank_device\<lparr>ID := ''device-foo'', Revision := 1\<rparr>)), foo_map)
   \<and> call_failure (WithTimeout (15 * Second)) slow_map = Some Timeout
   \<and> Load (one_device_codec blank_device) ''device-foo'' slow_map = (Inl Timeout, slow_map)"
  using Load_result [of "one_device_codec blank_device" "''device-foo''" foo_map Timeout]
    Load_result [of "one_device_codec blank_device" "''device-foo''" slow_map Timeout]
  by (simp add: one_device_codec_def foo_map_def slow_map_def blank_device_def Second_def
      EventNone_def call_failure_deadline prod_eq_iff)

text \<open>
  The claim C2 as it is written fails on an empty map: the id \<open>none\<close> is absent and
  \<open>Load\<close> returns \<^verbatim>\<open>(nil, nil)\<close>, not the error \<open>NotFound\<close>.
\<close>

theorem Load_absent_counterexample:
  "version_of empty_map ''none'' = None
   \<and> Load (one_device_codec device_foo) ''none'' empty_map = (Inr None, empty_map)
   \<and> fst (Load (one_device_codec device_foo) ''none'' empty_map) \<noteq> Inl NotFound"
  by (simp add: Load_def map_operations one_device_codec_def empty_map_def device_foo_def
      blank_device_def Second_def EventNone_def)

subsection \<open>Delete\<close>




subsection \<open>Store\<close>

lemma Store_success:
  assumes "Store c d s = (Inr d1, s1)"
  shows "\<exists>b. Marshal c d = Some b \<and> up s \<and> latency s \<le> 15 * Second
           \<and> d1 = d\<lparr>Revision := index s + 1\<rparr>
           \<and> s1 = s\<lparr>entries := AList.update (ID d) (b, index s + 1) (entries s),
                    index := index s + 1\<rparr>"
  using assms
  by (auto simp: Store_def map_Put_def call_failure_deadline
      split: option.splits if_splits)

text \<open>
  C1, as the code has it. For a device that encodes to \<open>b\<close> and a map that answers
  in time: with revision zero the put is unconditional, and with a non-zero revision
  it succeeds only when the map holds the device's id at exactly that version. A
  successful \<open>Store\<close> leaves \<open>b\<close> under the key \<open>ID d\<close> at the new version and the
  device carries that version as its revision. In every other case of a non-zero
  revision, a different version and an absent key alike, \<open>Store\<close> fails with
  \<open>Conflict\<close> and the map is unchanged. \<open>Store\<close> never fails with \<open>NotFound\<close>.
\<close>

theorem Store_compare_and_swap:
  "(up s \<and> latency s \<le> 15 * Second \<and> Marshal c d = Some b \<longrightarrow>
      (Revision d = 0 \<or> version_of s (ID d) = Some (Revision d) \<longrightarrow>
          fst (Store c d s) = Inr (d\<lparr>Revision := index s + 1\<rparr>)
          \<and> map_of (entries (snd (Store c d s))) = (map_of (entries s))(ID d \<mapsto> (b, index s + 1))
          \<and> index (snd (Store c d s)) = index s + 1)
      \<and> (Revision d \<noteq> 0 \<and> version_of s (ID d) \<noteq> Some (Revision d) \<longrightarrow>
          Store c d s = (Inl Conflict, s)))
   \<and> fst (Store c d s) \<noteq> Inl NotFound"
  by (auto simp: Store_def map_Put_def call_failure_deadline update_conv'
      split: option.splits if_splits)

theorem Store_compare_and_swap_witness:
  "up foo_map \<and> latency foo_map \<le> 15 * Second
   \<and> Marshal (one_device_codec device_foo) device_foo = Some [1]
   \<and> version_of foo_map (ID device_foo) = Some 1
   \<and> Store (one_device_codec device_foo) device_foo foo_map =
        (Inr (device_foo\<lparr>Revision := 2\<rparr>),
         foo_map\<lparr>entries := [(''device-foo'', [1], 2)], index := 2\<rparr>)
   \<and> Store (one_device_codec device_foo) (device_foo\<lparr>Revision := 1\<rparr>) foo_map =
        (Inr (device_foo\<lparr>Revision := 2\<rparr>),
         foo_map\<lparr>entries := [(''device-foo'', [1], 2)], index := 2\<rparr>)
   \<and> Store (one_device_codec device_foo) (device_foo\<lparr>Revision := 7\<rparr>) foo_map =
        (Inl Conflict, foo_map)"
  using Store_compare_and_swap [of foo_map "one_device_codec device_foo" device_foo "[1]"]
    Store_compare_and_swap [of foo_map "one_device_codec device_foo"
      "device_foo\<lparr>Revision := 1\<rparr>" "[1]"]
    Store_compare_and_swap [of foo_map "one_device_codec device_foo"
      "device_foo\<lparr>Revision := 7\<rparr>" "[1]"]
  by (simp add: Store_def map_operations one_device_codec_def foo_map_def device_foo_def
      blank_device_def Second_def EventNone_def)

text \<open>
  The claim C1 as it is written fails where the key no longer exists: a device with
  revision 7 stored into the empty map gets \<open>Conflict\<close>, not \<open>NotFound\<close>.
\<close>

theorem Store_absent_key_counterexample:
  "Revision (device_foo\<lparr>Revision := 7\<rparr>) \<noteq> 0
   \<and> version_of empty_map (ID (device_foo\<lparr>Revision := 7\<rparr>)) = None
   \<and> Store (one_device_codec device_foo) (device_foo\<lparr>Revision := 7\<rparr>) empty_map =
        (Inl Conflict, empty_map)
   \<and> fst (Store (one_device_codec device_foo) (device_foo\<lparr>Revision := 7\<rparr>) empty_map)
        \<noteq> Inl NotFound"
  by (simp add: Store_def map_operations one_device_codec_def empty_map_def device_foo_def
      blank_device_def Second_def EventNone_def)

subsection \<open>Store, then Load\<close>

lemma step_index: "index (step c x s) = index s \<or> index (step c x s) = index s + 1"
  by (cases x)
    (auto simp: Load_def Store_def Delete_def map_Get_def map_Put_def map_Remove_def
      split: option.splits sum.splits prod.splits if_splits)

lemma unat_index_step:
  "unat (index (step c x s)) \<le> unat (index s) + 1 \<and>
   (unat (index s) + 1 < 2 ^ 64 \<longrightarrow> unat (index s) \<le> unat (index (step c x s)))"
proof -
  have "unat (index s + 1) \<le> unat (index s) + 1"
    by (simp add: unat_word_ariths)
  moreover have "unat (index s) + 1 < 2 ^ 64 \<Longrightarrow> unat (index s + 1) = unat (index s) + 1"
    using unat_add_lem [of "index s" 1] by simp
  ultimately show ?thesis
    using step_index [of c x s] by auto
qed

lemma unat_index_run:
  "unat (index s) + length xs < 2 ^ 64 \<Longrightarrow>
     unat (index s) \<le> unat (index (run c xs s)) \<and>
     unat (index (run c xs s)) \<le> unat (index s) + length xs"
proof (induction xs arbitrary: s)
  case Nil
  then show ?case by (simp add: run_def)
next
  case (Cons x xs)
  have a: "unat (index (step c x s)) \<le> unat (index s) + 1"
    and b: "unat (index s) \<le> unat (index (step c x s))"
    using unat_index_step [of c x s] Cons.prems by auto
  have "unat (index (step c x s)) + length xs < 2 ^ 64"
    using a Cons.prems by simp
  from Cons.IH [OF this] a b show ?case
    by (simp add: run_def)
qed

text \<open>
  C4. Let the codec be faithful on \<open>d\<close> (\<open>d\<close> encodes to \<open>b\<close> and \<open>b\<close> decodes to
  \<open>d\<close>) and let \<open>Store\<close> of \<open>d\<close> succeed, leaving the device \<open>d1\<close> and the map
  \<open>s1\<close>. Then \<open>Load\<close> of the id returns \<open>d1\<close>, which is \<open>d\<close> in every field but
  the revision. And a later successful \<open>Store\<close>, of any device and so of one with the
  same id, after any sequence \<open>xs\<close> of loads, stores and deletes, assigns a revision
  strictly above that of \<open>d1\<close>, as long as the 64-bit index of the map has not run
  out.
\<close>

theorem Store_Load_roundtrip:
  assumes "Marshal c d = Some b" and "Unmarshal c b = Some d"
    and "Store c d s = (Inr d1, s1)"
  shows "Load c (ID d) s1 = (Inr (Some d1), s1)
         \<and> d1 = d\<lparr>Revision := Revision d1\<rparr>
         \<and> (\<forall>xs e d2 s2.
               unat (index s) + length xs + 2 < 2 ^ 64
               \<and> Store c e (run c xs s1) = (Inr d2, s2) \<longrightarrow> Revision d1 < Revision d2)"
proof (intro conjI allI impI)
  from Store_success [OF assms(3)] assms(1)
  have ok: "up s" "latency s \<le> 15 * Second"
    and d1: "d1 = d\<lparr>Revision := index s + 1\<rparr>"
    and s1: "s1 = s\<lparr>entries := AList.update (ID d) (b, index s + 1) (entries s),
                     index := index s + 1\<rparr>"
    by auto
  show "Load c (ID d) s1 = (Inr (Some d1), s1)"
    using ok assms(2)
    by (simp add: Load_def map_Get_def call_failure_deadline decodeDevice_def update_conv' s1 d1)
  show "d1 = d\<lparr>Revision := Revision d1\<rparr>"
    by (simp add: d1)
  fix xs e d2 s2
  assume h: "unat (index s) + length xs + 2 < 2 ^ 64
             \<and> Store c e (run c xs s1) = (Inr d2, s2)"
  have i1: "unat (index s1) = unat (index s) + 1"
    using unat_add_lem [of "index s" 1] h by (simp add: s1)
  then have "unat (index s1) + length xs < 2 ^ 64"
    using h by simp
  from unat_index_run [OF this, of c]
  have lo: "unat (index s1) \<le> unat (index (run c xs s1))"
    and hi: "unat (index (run c xs s1)) \<le> unat (index s1) + length xs"
    by auto
  from Store_success [of c e "run c xs s1" d2 s2] h
  have d2: "Revision d2 = index (run c xs s1) + 1"
    by auto
  have "unat (index (run c xs s1) + 1) = unat (index (run c xs s1)) + 1"
    using unat_add_lem [of "index (run c xs s1)" 1] hi i1 h by simp
  then have "unat (Revision d1) < unat (Revision d2)"
    using lo i1 by (simp add: d1 d2 s1)
  then show "Revision d1 < Revision d2"
    by (simp add: word_less_nat_alt)
qed

text \<open>
  An instance: \<open>device-foo\<close> is stored into the empty map and gets revision 1; it is
  stored again and an absent id is loaded; the store after that, at revision 2, gets
  revision 3.
\<close>

theorem Store_Load_roundtrip_witness:
  "Marshal (one_device_codec device_foo) device_foo = Some [1]
   \<and> Unmarshal (one_device_codec device_foo) [1] = Some device_foo
   \<and> Store (one_device_codec device_foo) device_foo empty_map =
        (Inr (device_foo\<lparr>Revision := 1\<rparr>), foo_map)
   \<and> Load (one_device_codec device_foo) (ID device_foo) foo_map =
        (Inr (Some (device_foo\<lparr>Revision := 1\<rparr>)), foo_map)
   \<and> unat (index empty_map) + length [OpStore device_foo, OpLoad ''none''] + 2 < 2 ^ 64
   \<and> Store (one_device_codec device_foo) (device_foo\<lparr>Revision := 2\<rparr>)
        (run (one_device_codec device_foo) [OpStore device_foo, OpLoad ''none''] foo_map) =
        (Inr (device_foo\<lparr>Revision := 3\<rparr>),
         foo_map\<lparr>entries := [(''device-foo'', [1], 3)], index := 3\<rparr>)
   \<and> Revision (device_foo\<lparr>Revision := 1\<rparr>) < Revision (device_foo\<lparr>Revision := 3\<rparr>)"
  using Store_Load_roundtrip [of "one_device_codec device_foo" device_foo "[1]" empty_map
      "device_foo\<lparr>Revision := 1\<rparr>" foo_map]
  by (simp add: Store_def Load_def decodeDevice_def run_def map_operations one_device_codec_def
      foo_map_def empty_map_def device_foo_def blank_device_def Second_def EventNone_def)

subsection \<open>Deadlines\<close>

text \<open>
  C5, as the code has it. \<open>Load\<close>, \<open>Store\<close> and \<open>Delete\<close> call the map under a
  deadline of 15 seconds: on a reachable map that takes longer they fail with
  \<open>Timeout\<close> (for \<open>Store\<close>, once the device is encoded), and on a map that
  answers within 15 seconds they do not. \<open>Timeout\<close> is neither
  \<open>NotFound\<close> nor \<open>Conflict\<close>. \<open>List\<close> and \<open>Watch\<close> call the map under the
  background context, which has no deadline: they never fail with \<open>Timeout\<close>, and on
  a reachable map they deliver their stream however long the map takes.
\<close>

theorem unary_calls_have_deadline:
  "(up s \<and> 15 * Second < latency s \<longrightarrow>
      fst (Load c k s) = Inl Timeout \<and> fst (Delete d s) = Inl Timeout
      \<and> (Marshal c d \<noteq> None \<longrightarrow> fst (Store c d s) = Inl Timeout))
   \<and> (latency s \<le> 15 * Second \<longrightarrow>
      fst (Load c k s) \<noteq> Inl Timeout \<and> fst (Store c d s) \<noteq> Inl Timeout
      \<and> fst (Delete d s) \<noteq> Inl Timeout)
   \<and> Timeout \<noteq> NotFound \<and> Timeout \<noteq> Conflict
   \<and> fst (List c s) \<noteq> Inl Timeout \<and> fst (Watch c live s) \<noteq> Inl Timeout
   \<and> (up s \<longrightarrow>
        List c s = (Inr (forward_devices c (stored_entries s)), s)
        \<and> Watch c live s = (Inr (forward_events c (replay_events s @ live)), s))"
proof -
  have unary: "up s \<and> 15 * Second < latency s \<longrightarrow>
      fst (Load c k s) = Inl Timeout \<and> fst (Delete d s) = Inl Timeout
      \<and> (Marshal c d \<noteq> None \<longrightarrow> fst (Store c d s) = Inl Timeout)"
    by (auto simp: Load_def Store_def Delete_def map_Get_def map_Put_def map_Remove_def
        call_failure_deadline)
  have timely: "latency s \<le> 15 * Second \<longrightarrow>
      fst (Load c k s) \<noteq> Inl Timeout \<and> fst (Store c d s) \<noteq> Inl Timeout
      \<and> fst (Delete d s) \<noteq> Inl Timeout"
    by (auto simp: Load_def Store_def Delete_def map_Get_def map_Put_def map_Remove_def
        call_failure_deadline decodeDevice_def split: option.splits if_splits)
  have streams: "fst (List c s) \<noteq> Inl Timeout \<and> fst (Watch c live s) \<noteq> Inl Timeout"
    by (simp add: List_def Watch_def map_Entries_def map_Watch_def stream_failure_def
        call_failure_Background)
  have opened: "up s \<longrightarrow>
        List c s = (Inr (forward_devices c (stored_entries s)), s)
        \<and> Watch c live s = (Inr (forward_events c (replay_events s @ live)), s)"
    by (simp add: List_def Watch_def map_Entries_def map_Watch_def stream_failure_def sent_def
        call_failure_Background)
  from unary timely streams opened show ?thesis
    by simp
qed

theorem unary_calls_have_deadline_witness:
  "up slow_map \<and> 15 * Second < latency slow_map
   \<and> fst (Load (one_device_codec device_foo) ''device-foo'' slow_map) = Inl Timeout
   \<and> fst (Delete device_foo slow_map) = Inl Timeout
   \<and> Marshal (one_device_codec device_foo) device_foo \<noteq> None
   \<and> fst (Store (one_device_codec device_foo) device_foo slow_map) = Inl Timeout
   \<and> latency foo_map \<le> 15 * Second
   \<and> fst (Load (one_device_codec device_foo) ''device-foo'' foo_map) \<noteq> Inl Timeout
   \<and> fst (Store (one_device_codec device_foo) device_foo foo_map) \<noteq> Inl Timeout
   \<and> fst (Delete device_foo foo_map) \<noteq> Inl Timeout
   \<and> List (one_device_codec device_foo) slow_map =
        (Inr [device_foo\<lparr>Revision := 1\<rparr>], slow_map)
   \<and> Watch (one_device_codec device_foo) [] slow_map =
        (Inr [\<lparr>Type = EventNone, Device = device_foo\<lparr>Revision := 1\<rparr>\<rparr>], slow_map)"
  using unary_calls_have_deadline [of slow_map "one_device_codec device_foo" "''device-foo''"
      device_foo "[]"]
    unary_calls_have_deadline [of foo_map "one_device_codec device_foo" "''device-foo''"
      device_foo "[]"]
  by (simp add: Load_def Store_def Delete_def List_def Watch_def decodeDevice_def
      map_operations one_device_codec_def foo_map_def slow_map_def device_foo_def
      blank_device_def Second_def EventNone_def)

text \<open>
  The claim C5 as it is written fails for \<open>List\<close> and \<open>Watch\<close>: on a map that takes
  16 seconds to answer, both deliver their stream and neither fails with \<open>Timeout\<close>.
\<close>

theorem List_no_deadline_counterexample:
  "up slow_map \<and> 15 * Second < latency slow_map
   \<and> List (one_device_codec device_foo) slow_map =
        (Inr [device_foo\<lparr>Revision := 1\<rparr>], slow_map)
   \<and> fst (List (one_device_codec device_foo) slow_map) \<noteq> Inl Timeout
   \<and> fst (Watch (one_device_codec device_foo) [] slow_map) \<noteq> Inl Timeout"
  by (simp add: List_def Watch_def decodeDevice_def map_operations one_device_codec_def
      slow_map_def device_foo_def blank_device_def Second_def EventNone_def)

subsection \<open>Watch\<close>






subsection \<open>What becomes of a failure\<close>




subsection \<open>The caller's devices\<close>

lemma Store_result_cases:
  "(\<exists>e. Store c d s = (Inl e, s)) \<or>
   (\<exists>s'. Store c d s = (Inr (d\<lparr>Revision := index s + 1\<rparr>), s'))"
  by (auto simp: Store_def map_Put_def split: option.splits if_splits)

text \<open>
  C9, as the code has it. \<open>Load\<close>, \<open>List\<close> and \<open>Watch\<close> leave every device of
  the heap as it was and deliver pointers to devices they have allocated: the pointer
  of \<open>Load\<close> is the first one beyond the heap it was called on, the pointers of
  \<open>List\<close> and \<open>Watch\<close> are the next ones beyond it, one for each device, and
  behind them are the devices that the operation produced. \<open>Delete\<close> changes no
  device, and neither does a \<open>Store\<close> that fails. A \<open>Store\<close> that succeeds writes
  through the pointer it was given: the revision of that device becomes the new
  version, its other fields and all other devices stay as they were.
\<close>

theorem heap_frame:
  "take (length h) (fst (snd (Load_at c k h s))) = h
   \<and> take (length h) (fst (snd (List_at c h s))) = h
   \<and> take (length h) (fst (snd (Watch_at c live h s))) = h
   \<and> (fst (Load_at c k h s) = Inr (Some r) \<longrightarrow>
        r = length h \<and> length (fst (snd (Load_at c k h s))) = Suc (length h)
        \<and> fst (Load c k s) = Inr (Some (fst (snd (Load_at c k h s)) ! r)))
   \<and> (fst (Load_at c k h s) \<noteq> Inr (Some (length h)) \<longrightarrow> fst (snd (Load_at c k h s)) = h)
   \<and> (fst (List_at c h s) = Inr rs \<longrightarrow>
        rs = [length h ..< length (fst (snd (List_at c h s)))]
        \<and> fst (List c s) = Inr (map (\<lambda>r. fst (snd (List_at c h s)) ! r) rs))
   \<and> (fst (Watch_at c live h s) = Inr trs \<longrightarrow>
        map snd trs = [length h ..< length (fst (snd (Watch_at c live h s)))]
        \<and> fst (Watch c live s) =
            Inr (map (\<lambda>(t, r). \<lparr>Type = t, Device = fst (snd (Watch_at c live h s)) ! r\<rparr>)
                   trs))
   \<and> fst (snd (Delete_at p h s)) = h
   \<and> length (fst (snd (Store_at c p h s))) = length h
   \<and> (\<forall>q. q \<noteq> p \<longrightarrow> fst (snd (Store_at c p h s)) ! q = h ! q)
   \<and> (p < length h \<longrightarrow>
        fst (snd (Store_at c p h s)) ! p =
          (h ! p)\<lparr>Revision := Revision (fst (snd (Store_at c p h s)) ! p)\<rparr>)
   \<and> (fst (Store_at c p h s) \<noteq> None \<longrightarrow> fst (snd (Store_at c p h s)) = h)
   \<and> (fst (Store_at c p h s) = None \<longrightarrow>
        p < length h \<and> Revision (fst (snd (Store_at c p h s)) ! p) = index s + 1)"
proof (intro conjI allI impI)
  show "take (length h) (fst (snd (Load_at c k h s))) = h"
    by (simp add: Load_at_def split: prod.splits sum.splits option.splits)
  show "take (length h) (fst (snd (List_at c h s))) = h"
    by (simp add: List_at_def split: prod.splits sum.splits)
  show "take (length h) (fst (snd (Watch_at c live h s))) = h"
    by (simp add: Watch_at_def split: prod.splits sum.splits)
  show "fst (snd (Delete_at p h s)) = h"
    by (simp add: Delete_at_def split: prod.splits sum.splits)
  show "length (fst (snd (Store_at c p h s))) = length h"
    by (simp add: Store_at_def split: prod.splits sum.splits)
next
  assume a: "fst (Load_at c k h s) = Inr (Some r)"
  then show "r = length h"
    by (auto simp: Load_at_def split: prod.splits sum.splits option.splits)
  from a show "length (fst (snd (Load_at c k h s))) = Suc (length h)"
    by (auto simp: Load_at_def split: prod.splits sum.splits option.splits)
  from a show "fst (Load c k s) = Inr (Some (fst (snd (Load_at c k h s)) ! r))"
    by (auto simp: Load_at_def split: prod.splits sum.splits option.splits)
next
  assume "fst (Load_at c k h s) \<noteq> Inr (Some (length h))"
  then show "fst (snd (Load_at c k h s)) = h"
    by (auto simp: Load_at_def split: prod.splits sum.splits option.splits)
next
  assume a: "fst (List_at c h s) = Inr rs"
  then show "rs = [length h ..< length (fst (snd (List_at c h s)))]"
    by (auto simp: List_at_def split: prod.splits sum.splits)
  from a show "fst (List c s) = Inr (map (\<lambda>r. fst (snd (List_at c h s)) ! r) rs)"
    by (auto simp: List_at_def nth_append intro!: nth_equalityI
        split: prod.splits sum.splits)
next
  assume a: "fst (Watch_at c live h s) = Inr trs"
  then show "map snd trs = [length h ..< length (fst (snd (Watch_at c live h s)))]"
    by (auto simp: Watch_at_def split: prod.splits sum.splits)
  from a show "fst (Watch c live s) =
      Inr (map (\<lambda>(t, r). \<lparr>Type = t, Device = fst (snd (Watch_at c live h s)) ! r\<rparr>)
             trs)"
    by (auto simp: Watch_at_def nth_append intro!: nth_equalityI
        split: prod.splits sum.splits)
next
  fix q assume "q \<noteq> p"
  then show "fst (snd (Store_at c p h s)) ! q = h ! q"
    by (simp add: Store_at_def split: prod.splits sum.splits)
next
  assume "p < length h"
  then show "fst (snd (Store_at c p h s)) ! p =
          (h ! p)\<lparr>Revision := Revision (fst (snd (Store_at c p h s)) ! p)\<rparr>"
    using Store_result_cases [of c "h ! p" s]
    by (auto simp: Store_at_def)
next
  assume "fst (Store_at c p h s) \<noteq> None"
  then show "fst (snd (Store_at c p h s)) = h"
    by (auto simp: Store_at_def split: prod.splits sum.splits if_splits)
next
  assume a: "fst (Store_at c p h s) = None"
  then show "p < length h"
    by (auto simp: Store_at_def split: if_splits)
  with a show "Revision (fst (snd (Store_at c p h s)) ! p) = index s + 1"
    using Store_result_cases [of c "h ! p" s]
    by (auto simp: Store_at_def)
qed

theorem heap_frame_witness:
  "Load_at (one_device_codec device_foo) ''device-foo'' [blank_device] foo_map =
     (Inr (Some 1), [blank_device, device_foo\<lparr>Revision := 1\<rparr>], foo_map)
   \<and> Load (one_device_codec device_foo) ''device-foo'' foo_map =
       (Inr (Some (device_foo\<lparr>Revision := 1\<rparr>)), foo_map)
   \<and> Load_at (one_device_codec device_foo) ''none'' [blank_device] foo_map =
       (Inr None, [blank_device], foo_map)
   \<and> List_at (one_device_codec device_foo) [blank_device] foo_map =
       (Inr [1], [blank_device, device_foo\<lparr>Revision := 1\<rparr>], foo_map)
   \<and> Watch_at (one_device_codec device_foo) [] [blank_device] foo_map =
       (Inr [(EventNone, 1)], [blank_device, device_foo\<lparr>Revision := 1\<rparr>], foo_map)
   \<and> 0 \<noteq> (1::nat) \<and> 1 < length [blank_device, device_foo\<lparr>Revision := 1\<rparr>]
   \<and> Store_at (one_device_codec device_foo) 1 [blank_device, device_foo\<lparr>Revision := 1\<rparr>]
         foo_map =
       (None, [blank_device, device_foo\<lparr>Revision := 2\<rparr>],
        foo_map\<lparr>entries := [(''device-foo'', [1], 2)], index := 2\<rparr>)
   \<and> Store_at (one_device_codec device_foo) 1 [blank_device, device_foo\<lparr>Revision := 7\<rparr>]
         foo_map =
       (Some Conflict, [blank_device, device_foo\<lparr>Revision := 7\<rparr>], foo_map)
   \<and> Delete_at 1 [blank_device, device_foo\<lparr>Revision := 1\<rparr>] foo_map =
       (None, [blank_device, device_foo\<lparr>Revision := 1\<rparr>], foo_map\<lparr>entries := []\<rparr>)"
proof -
  have loads:
    "Load (one_device_codec device_foo) ''device-foo'' foo_map =
       (Inr (Some (device_foo\<lparr>Revision := 1\<rparr>)), foo_map)"
    "Load (one_device_codec device_foo) ''none'' foo_map = (Inr None, foo_map)"
    by (simp_all add: Load_def decodeDevice_def map_operations one_device_codec_def
        foo_map_def device_foo_def blank_device_def Second_def)
  have streams:
    "List (one_device_codec device_foo) foo_map =
       (Inr [device_foo\<lparr>Revision := 1\<rparr>], foo_map)"
    "Watch (one_device_codec device_foo) [] foo_map =
       (Inr [\<lparr>Type = EventNone, Device = device_foo\<lparr>Revision := 1\<rparr>\<rparr>], foo_map)"
    by (simp_all add: List_def Watch_def decodeDevice_def map_operations one_device_codec_def
        foo_map_def device_foo_def blank_device_def Second_def EventNone_def)
  have stores:
    "Store (one_device_codec device_foo) (device_foo\<lparr>Revision := 1\<rparr>) foo_map =
       (Inr (device_foo\<lparr>Revision := 2\<rparr>),
        foo_map\<lparr>entries := [(''device-foo'', [1], 2)], index := 2\<rparr>)"
    "Store (one_device_codec device_foo) (device_foo\<lparr>Revision := 7\<rparr>) foo_map =
       (Inl Conflict, foo_map)"
    "Delete (device_foo\<lparr>Revision := 1\<rparr>) foo_map = (Inr (), foo_map\<lparr>entries := []\<rparr>)"
    by (simp_all add: Store_def Delete_def map_operations one_device_codec_def foo_map_def
        device_foo_def blank_device_def Second_def)
  show ?thesis
    using heap_frame [where h = "[blank_device]" and c = "one_device_codec device_foo"
        and k = "''device-foo''" and s = foo_map and r = 1 and rs = "[1]" and live = "[]"
        and trs = "[(EventNone, 1)]"]
      heap_frame [where h = "[blank_device, device_foo\<lparr>Revision := 1\<rparr>]"
        and c = "one_device_codec device_foo" and s = foo_map and p = 1]
    by (simp add: Load_at_def Store_at_def Delete_at_def List_at_def Watch_at_def loads
        streams stores upt_rec)
qed

text \<open>
  The claim C9 as it is written fails for \<open>Store\<close>: \<open>Load\<close> delivers
  \<open>device-foo\<close> at revision 1 behind the pointer 0, and after \<open>Store\<close> on that
  pointer the device the caller holds is at revision 2.
\<close>

theorem Store_mutates_delivered_device_counterexample:
  "Load_at (one_device_codec device_foo) ''device-foo'' [] foo_map =
     (Inr (Some 0), [device_foo\<lparr>Revision := 1\<rparr>], foo_map)
   \<and> fst (snd (Store_at (one_device_codec device_foo) 0 [device_foo\<lparr>Revision := 1\<rparr>] foo_map))
       = [device_foo\<lparr>Revision := 2\<rparr>]
   \<and> fst (snd (Store_at (one_device_codec device_foo) 0 [device_foo\<lparr>Revision := 1\<rparr>] foo_map)) ! 0
       \<noteq> [device_foo\<lparr>Revision := 1\<rparr>] ! 0"
  by (simp add: Load_at_def Store_at_def Load_def Store_def decodeDevice_def
      map_operations one_device_codec_def foo_map_def device_foo_def blank_device_def
      Second_def EventNone_def)

subsection \<open>The older store\<close>

text \<open>
  The older \<open>Store\<close> and \<open>Delete\<close> do to the map what the newer ones do, for
  the device with the same id, the same encoding and the revision of the metadata
  (zero when there is none). A guarded delete takes its key from the metadata.
\<close>

lemma legacy_Store_as_Store:
  assumes "Marshal lc ld = Marshal c d" and "ID d = Id_dev ld"
    and "Revision d = (case Metadata ld of None \<Rightarrow> 0 | Some m \<Rightarrow> Version_meta m)"
  shows "legacy_Store lc ld s =
     (case Store c d s of
        (Inl err, s') \<Rightarrow> (Inl err, s')
      | (Inr d', s') \<Rightarrow>
          (Inr (ld\<lparr>Metadata := Some \<lparr>Id_meta = Id_dev ld, Version_meta = Revision d'\<rparr>\<rparr>), s'))"
  using assms
  by (auto simp: legacy_Store_def Store_def map_Put_def split: option.splits if_splits)

lemma legacy_Delete_as_Delete:
  assumes "Revision d = (case Metadata ld of None \<Rightarrow> 0 | Some m \<Rightarrow> Version_meta m)"
    and "ID d = (case Metadata ld of None \<Rightarrow> Id_dev ld
                 | Some m \<Rightarrow> if 0 < Version_meta m then Id_meta m else Id_dev ld)"
  shows "legacy_Delete ld s = Delete d s"
  using assms
  by (auto simp: legacy_Delete_def Delete_def split: option.splits if_splits)

text \<open>The older \<open>Load\<close> of an absent id dereferences the nil entry.\<close>

lemma legacy_Load_result:
  assumes "up s" and "latency s \<le> 15 * Second"
  shows "legacy_Load lc k s =
     (case map_of (entries s) k of
        None \<Rightarrow> (Inl NilPointer, s)
      | Some (v, n) \<Rightarrow>
          (case Unmarshal lc v of
             None \<Rightarrow> (Inl UnmarshalError, s)
           | Some ld \<Rightarrow>
               (Inr (ld\<lparr>Metadata := Some \<lparr>Id_meta = k, Version_meta = n\<rparr>\<rparr>), s)))"
  using assms
  by (auto simp: legacy_Load_def map_Get_def call_failure_deadline legacy_decodeDevice_def
      split: option.splits)

end
